theory Spec2Isabelle
  imports Complex_Main
begin

section \<open>Python values used by \<^verbatim>\<open>ocralign/ocr.py\<close>\<close>

text \<open>
  A Python \<^verbatim>\<open>str\<close> is a sequence of Unicode code points, so it is modelled as a list of
  code points (natural numbers); \<open>ustr\<close> turns an ASCII literal into such a list.
\<close>

type_synonym pystr = "nat list"

definition ustr :: "string \<Rightarrow> pystr" where
  "ustr s = map of_char s"

text \<open>
  \<^verbatim>\<open>str.strip()\<close> without argument removes the code points for which
  \<^verbatim>\<open>str.isspace\<close> holds from both ends. CPython's whitespace code points are
  U+0009..U+000D, U+001C..U+0020, U+0085, U+00A0, U+1680, U+2000..U+200A, U+2028, U+2029,
  U+202F, U+205F and U+3000.
\<close>

definition py_isspace :: "nat \<Rightarrow> bool" where
  "py_isspace c \<longleftrightarrow>
     (0x09 \<le> c \<and> c \<le> 0x0D) \<or> (0x1C \<le> c \<and> c \<le> 0x20) \<or> c = 0x85 \<or> c = 0xA0 \<or>
     c = 0x1680 \<or> (0x2000 \<le> c \<and> c \<le> 0x200A) \<or> c = 0x2028 \<or> c = 0x2029 \<or>
     c = 0x202F \<or> c = 0x205F \<or> c = 0x3000"

definition strip :: "pystr \<Rightarrow> pystr" where
  "strip s = rev (dropWhile py_isspace (rev (dropWhile py_isspace s)))"

text \<open>\<^verbatim>\<open>str(n)\<close> of a non-negative integer: its decimal digits, most significant first.\<close>

fun str_nat :: "nat \<Rightarrow> pystr" where
  "str_nat n = (if n < 10 then [48 + n] else str_nat (n div 10) @ [48 + n mod 10])"

declare str_nat.simps [simp del]

section \<open>The collaborators of the pipeline\<close>

text \<open>
  The pipeline calls PyMuPDF (\<^verbatim>\<open>fitz\<close>), PIL, the recognizer \<^verbatim>\<open>process_page\<close> and the
  file system. None of them is defined in \<^verbatim>\<open>ocr.py\<close>; each is a field of the environment,
  and each may raise: an exception is a value of the type \<open>'e\<close>, returned as \<open>Inl\<close>.
\<close>

text \<open>
  \<^verbatim>\<open>fitz.Matrix(sx, sy)\<close> is the scaling matrix \<open>(sx, 0, 0, sy, 0, 0)\<close>. The quotient
  \<^verbatim>\<open>dpi / 72.0\<close> is carried as a real number; the rounding of Python's floats is not
  modelled.
\<close>

datatype matrix = Matrix real real real real real real

definition fitz_Matrix :: "real \<Rightarrow> real \<Rightarrow> matrix" where
  "fitz_Matrix sx sy = Matrix sx 0 0 sy 0 0"

record pixmap =
  alpha :: bool
  width :: nat
  height :: nat
  samples :: "nat list"

record image =
  im_mode :: pystr
  im_size :: "nat \<times> nat"
  im_data :: "nat list"

text \<open>
  An open document: the identity of its handle, its page count and \<^verbatim>\<open>load_page\<close>.
\<close>

record ('e, 'page) document =
  doc_id :: nat
  page_count :: nat
  load_page :: "nat \<Rightarrow> 'e + 'page"

record ('e, 'page) env =
  fitz_open :: "pystr \<Rightarrow> 'e + ('e, 'page) document"
  get_pixmap :: "'page \<Rightarrow> matrix \<Rightarrow> bool \<Rightarrow> 'e + pixmap"
  frombytes_raises :: "pystr \<Rightarrow> nat \<times> nat \<Rightarrow> nat list \<Rightarrow> 'e option"
  process_page :: "image \<Rightarrow> 'e + pystr"
  open_raises :: "pystr \<Rightarrow> 'e option"
  write_raises :: "pystr \<Rightarrow> pystr \<Rightarrow> 'e option"

text \<open>
  What the pipeline changes outside itself: the contents of the files, and the document
  handles on which \<^verbatim>\<open>close()\<close> has been called, in the order of the calls.
\<close>

record world =
  files :: "pystr \<rightharpoonup> pystr"
  closed_docs :: "nat list"

section \<open>\<^verbatim>\<open>write_to_txt\<close>\<close>

text \<open>
  The loop over \<^verbatim>\<open>enumerate(text_pages)\<close> appends to \<^verbatim>\<open>full_doc_text\<close> twice per page.
\<close>

definition full_doc_text :: "pystr list \<Rightarrow> pystr" where
  "full_doc_text text_pages =
     foldl (\<lambda>acc (pg_no, img_text).
              (acc @ ustr ''-- Page '' @ str_nat (pg_no + 1) @ ustr '' --\<newline>'')
                @ strip img_text @ ustr ''\<newline>\<newline>'')
       [] (enumerate 0 text_pages)"

text \<open>
  \<^verbatim>\<open>open(output_path, "w")\<close> either raises and leaves the files as they are, or creates
  the file empty (truncating an existing one); \<^verbatim>\<open>f_.write\<close> then either raises or
  stores the whole text. The call to the logger has no effect on the result.
\<close>

definition write_to_txt ::
  "('e, 'page) env \<Rightarrow> pystr \<Rightarrow> pystr list \<Rightarrow> world \<Rightarrow> ('e + unit) \<times> world" where
  "write_to_txt env output_path text_pages w =
     (let txt = full_doc_text text_pages in
      case open_raises env output_path of
        Some e \<Rightarrow> (Inl e, w)
      | None \<Rightarrow>
          (let w1 = w\<lparr>files := (files w)(output_path \<mapsto> [])\<rparr> in
           case write_raises env output_path txt of
             Some e \<Rightarrow> (Inl e, w1)
           | None \<Rightarrow> (Inr (), w1\<lparr>files := (files w1)(output_path \<mapsto> txt)\<rparr>)))"

section \<open>\<^verbatim>\<open>_page_to_pil_image\<close>\<close>

definition Image_frombytes ::
  "('e, 'page) env \<Rightarrow> pystr \<Rightarrow> nat \<times> nat \<Rightarrow> nat list \<Rightarrow> 'e + image" where
  "Image_frombytes env mode sz bytes =
     (case frombytes_raises env mode sz bytes of
        Some e \<Rightarrow> Inl e
      | None \<Rightarrow> Inr \<lparr>im_mode = mode, im_size = sz, im_data = bytes\<rparr>)"

definition page_to_pil_image :: "('e, 'page) env \<Rightarrow> 'page \<Rightarrow> int \<Rightarrow> 'e + image" where
  "page_to_pil_image env page dpi =
     (let zoom = real_of_int dpi / 72;
          mat = fitz_Matrix zoom zoom
      in case get_pixmap env page mat False of
           Inl e \<Rightarrow> Inl e
         | Inr pix \<Rightarrow>
             (let mode = (if alpha pix then ustr ''RGBA'' else ustr ''RGB'')
              in Image_frombytes env mode (width pix, height pix) (samples pix)))"

section \<open>\<^verbatim>\<open>process_pdf\<close>\<close>

text \<open>The body of the page loop, up to the text of the page.\<close>

definition page_text ::
  "('e, 'page) env \<Rightarrow> ('e, 'page) document \<Rightarrow> int \<Rightarrow> nat \<Rightarrow> 'e + pystr" where
  "page_text env doc dpi page_index =
     (case load_page doc page_index of
        Inl e \<Rightarrow> Inl e
      | Inr page \<Rightarrow>
          (case page_to_pil_image env page dpi of
             Inl e \<Rightarrow> Inl e
           | Inr img \<Rightarrow> process_page env img))"

text \<open>
  The loop over \<^verbatim>\<open>range(page_count)\<close>: the text of each page is appended to
  \<^verbatim>\<open>text_pages\<close>; an exception leaves the loop at once. The progress bar and the logger
  do not change the iteration.
\<close>

fun process_pages ::
  "('e, 'page) env \<Rightarrow> ('e, 'page) document \<Rightarrow> int \<Rightarrow> nat list \<Rightarrow> pystr list
     \<Rightarrow> 'e + pystr list" where
  "process_pages env doc dpi [] text_pages = Inr text_pages"
| "process_pages env doc dpi (page_index # rest) text_pages =
     (case page_text env doc dpi page_index of
        Inl e \<Rightarrow> Inl e
      | Inr text \<Rightarrow> process_pages env doc dpi rest (text_pages @ [text]))"

definition doc_close :: "('e, 'page) document \<Rightarrow> world \<Rightarrow> world" where
  "doc_close doc w = w\<lparr>closed_docs := closed_docs w @ [doc_id doc]\<rparr>"

text \<open>
  The \<^verbatim>\<open>try\<close> block of \<^verbatim>\<open>process_pdf\<close> once the document is open. The result is the
  returned value (\<open>None\<close> for Python's \<^verbatim>\<open>None\<close>, \<open>Some\<close> for the list) or the exception.
  \<^verbatim>\<open>if output_path:\<close> tests truthiness: \<^verbatim>\<open>None\<close> and the empty string take the
  \<^verbatim>\<open>else\<close> branch.
\<close>

definition process_body ::
  "('e, 'page) env \<Rightarrow> ('e, 'page) document \<Rightarrow> int \<Rightarrow> pystr option \<Rightarrow> world
     \<Rightarrow> ('e + pystr list option) \<times> world" where
  "process_body env doc dpi output_path w =
     (case process_pages env doc dpi [0..<page_count doc] [] of
        Inl e \<Rightarrow> (Inl e, w)
      | Inr text_pages \<Rightarrow>
          (case output_path of
             None \<Rightarrow> (Inr (Some text_pages), w)
           | Some p \<Rightarrow>
               if p \<noteq> [] then
                 (case write_to_txt env p text_pages w of
                    (Inl e, w') \<Rightarrow> (Inl e, w')
                  | (Inr u, w') \<Rightarrow> (Inr None, w'))
               else (Inr (Some text_pages), w)))"

text \<open>
  \<^verbatim>\<open>process_pdf\<close>: when \<^verbatim>\<open>fitz.open\<close> raises, \<^verbatim>\<open>doc\<close> is still \<^verbatim>\<open>None\<close> and nothing
  is closed; otherwise the \<^verbatim>\<open>finally\<close> clause closes the document after the body,
  whatever the body did. The \<^verbatim>\<open>except\<close> clause logs and re-raises the exception it
  caught, so the exception of the body is the exception of the call. \<^verbatim>\<open>doc.close()\<close> is
  taken not to raise, and the rasterizer and the recognizer not to touch the files.
\<close>

definition process_pdf ::
  "('e, 'page) env \<Rightarrow> pystr \<Rightarrow> int \<Rightarrow> pystr option \<Rightarrow> world
     \<Rightarrow> ('e + pystr list option) \<times> world" where
  "process_pdf env pdf_path dpi output_path w =
     (case fitz_open env pdf_path of
        Inl e \<Rightarrow> (Inl e, w)
      | Inr doc \<Rightarrow>
          (case process_body env doc dpi output_path w of
             (r, w') \<Rightarrow> (r, doc_close doc w')))"

section \<open>A concrete document and environment\<close>

text \<open>
  A two-page document whose pages are their own indices, a rasterizer that honours the
  requested alpha flag and stores the page index in the first sample, and a recognizer that
  reads it back. Exceptions are their messages.
\<close>

definition demo_doc :: "(pystr, nat) document" where
  "demo_doc =
     \<lparr>doc_id = 7, page_count = 2,
      load_page = (\<lambda>i. if i < 2 then Inr i else Inl (ustr ''page not in document''))\<rparr>"

definition demo_pixmap :: "nat \<Rightarrow> matrix \<Rightarrow> bool \<Rightarrow> pystr + pixmap" where
  "demo_pixmap page mat al = Inr \<lparr>alpha = al, width = 1, height = 1, samples = [page, 0, 0]\<rparr>"

definition demo_recognizer :: "image \<Rightarrow> pystr + pystr" where
  "demo_recognizer img =
     (case im_data img of
        [] \<Rightarrow> Inl (ustr ''empty image'')
      | b # bs \<Rightarrow> if b = 0 then Inr (ustr ''Hello'') else Inr (ustr ''World''))"

definition demo_env :: "(pystr, nat) env" where
  "demo_env =
     \<lparr>fitz_open = (\<lambda>p. if p = ustr ''a.pdf'' then Inr demo_doc else Inl (ustr ''no such file'')),
      get_pixmap = demo_pixmap,
      frombytes_raises = (\<lambda>mode sz bytes. None),
      process_page = demo_recognizer,
      open_raises = (\<lambda>p. None),
      write_raises = (\<lambda>p txt. None)\<rparr>"

text \<open>The same environment with a recognizer that raises on page \<open>k\<close>.\<close>

definition failing_recognizer :: "nat \<Rightarrow> image \<Rightarrow> pystr + pystr" where
  "failing_recognizer k img =
     (case im_data img of
        [] \<Rightarrow> Inl (ustr ''empty image'')
      | b # bs \<Rightarrow> if b = k then Inl (ustr ''boom'') else demo_recognizer img)"

definition failing_env :: "nat \<Rightarrow> (pystr, nat) env" where
  "failing_env k = demo_env\<lparr>process_page := failing_recognizer k\<rparr>"

text \<open>The same document without pages.\<close>

definition empty_doc :: "(pystr, nat) document" where
  "empty_doc = demo_doc\<lparr>page_count := 0\<rparr>"

definition empty_env :: "(pystr, nat) env" where
  "empty_env = demo_env\<lparr>fitz_open := (\<lambda>p. Inr empty_doc)\<rparr>"

text \<open>
  An environment whose pages are just the flag saying whether the page declares
  transparency, with a rasterizer that honours the requested alpha flag: four samples per
  pixel when alpha is requested, three when it is not.
\<close>

definition honouring_pixmap :: "bool \<Rightarrow> matrix \<Rightarrow> bool \<Rightarrow> pystr + pixmap" where
  "honouring_pixmap transparent mat al =
     Inr \<lparr>alpha = al, width = 1, height = 1,
          samples = (if al then [0, 0, 0, if transparent then 0 else 255] else [0, 0, 0])\<rparr>"

definition transparency_env :: "(pystr, bool) env" where
  "transparency_env =
     \<lparr>fitz_open = (\<lambda>p. Inl (ustr ''no such file'')),
      get_pixmap = honouring_pixmap,
      frombytes_raises = (\<lambda>mode sz bytes. None),
      process_page = (\<lambda>img. Inr []),
      open_raises = (\<lambda>p. None),
      write_raises = (\<lambda>p txt. None)\<rparr>"

text \<open>The text of each page of the concrete document.\<close>

definition demo_texts :: "nat \<Rightarrow> pystr" where
  "demo_texts i = (if i = 0 then ustr ''Hello'' else ustr ''World'')"

text \<open>The same environment with a sink that refuses to open the output file.\<close>

definition unwritable_env :: "(pystr, nat) env" where
  "unwritable_env = demo_env\<lparr>open_raises := (\<lambda>p. Some (ustr ''permission denied''))\<rparr>"

definition demo_world :: world where
  "demo_world = \<lparr>files = Map.empty, closed_docs = []\<rparr>"

section \<open>Facts about the string helpers\<close>

lemma str_nat_digits: "list_all (\<lambda>d. 48 \<le> d \<and> d \<le> 57) (str_nat n)"
proof (induction n rule: str_nat.induct)
  case (1 n)
  show ?case
  proof (cases "n < 10")
    case True
    then show ?thesis by (simp add: str_nat.simps [of n])
  next
    case False
    have "n mod 10 < 10" by simp
    then have "48 + n mod 10 \<le> 57" by linarith
    with False 1 show ?thesis by (simp add: str_nat.simps [of n])
  qed
qed

lemma str_nat_value: "foldl (\<lambda>a d. 10 * a + (d - 48)) 0 (str_nat n) = n"
proof (induction n rule: str_nat.induct)
  case (1 n)
  show ?case
  proof (cases "n < 10")
    case True
    then show ?thesis by (simp add: str_nat.simps [of n])
  next
    case False
    with 1 show ?thesis by (simp add: str_nat.simps [of n])
  qed
qed

lemma str_nat_no_leading_zero: "0 < n \<Longrightarrow> hd (str_nat n) \<noteq> 48"
proof (induction n rule: str_nat.induct)
  case (1 n)
  show ?case
  proof (cases "n < 10")
    case True
    with 1(2) show ?thesis by (simp add: str_nat.simps [of n])
  next
    case False
    then have pos: "0 < n div 10" by simp
    have ne: "str_nat (n div 10) \<noteq> []"
      by (subst str_nat.simps) simp
    from 1(1) [OF False pos] ne False show ?thesis
      by (simp add: str_nat.simps [of n])
  qed
qed

lemma strip_decompose:
  "\<exists>l r. s = l @ strip s @ r \<and> list_all py_isspace l \<and> list_all py_isspace r"
proof -
  let ?l = "takeWhile py_isspace s"
  let ?m = "dropWhile py_isspace s"
  let ?r = "rev (takeWhile py_isspace (rev ?m))"
  have "rev ?m = takeWhile py_isspace (rev ?m) @ dropWhile py_isspace (rev ?m)"
    by simp
  then have "?m = strip s @ ?r"
    unfolding strip_def by (metis rev_append rev_rev_ident)
  then have "s = ?l @ strip s @ ?r"
    by (metis takeWhile_dropWhile_id)
  moreover have "list_all py_isspace ?l"
    by (simp add: list_all_iff) (meson set_takeWhileD)
  moreover have "list_all py_isspace ?r"
    by (simp add: list_all_iff) (meson set_takeWhileD)
  ultimately show ?thesis by blast
qed

lemma strip_ends:
  "strip s = [] \<or> (\<not> py_isspace (hd (strip s)) \<and> \<not> py_isspace (last (strip s)))"
proof (cases "strip s = []")
  case True
  then show ?thesis by simp
next
  case False
  let ?m = "dropWhile py_isspace s"
  let ?d = "dropWhile py_isspace (rev ?m)"
  have d: "?d \<noteq> []" using False by (simp add: strip_def)
  have m: "?m \<noteq> []"
  proof
    assume e: "?m = []"
    have "?d = []" unfolding e by simp
    with d show False by simp
  qed
  have l: "\<not> py_isspace (hd ?d)" using d by (rule hd_dropWhile)
  have "last (strip s) = hd ?d" using d by (simp add: strip_def last_rev)
  with l have a: "\<not> py_isspace (last (strip s))" by simp
  have h: "\<not> py_isspace (hd ?m)" using m by (rule hd_dropWhile)
  obtain r where r: "?m = strip s @ r"
    by (metis strip_def rev_append rev_rev_ident takeWhile_dropWhile_id)
  with False have "hd ?m = hd (strip s)" by simp
  with h a show ?thesis by simp
qed

lemma strip_no_space: "\<not> py_isspace (hd s) \<Longrightarrow> \<not> py_isspace (last s) \<Longrightarrow> strip s = s"
proof (cases s)
  case Nil
  then show ?thesis by (simp add: strip_def)
next
  case (Cons c cs)
  assume a: "\<not> py_isspace (hd s)" and b: "\<not> py_isspace (last s)"
  from a Cons have 1: "dropWhile py_isspace s = s" by simp
  from Cons obtain x xs where rs: "rev s = x # xs" by (cases "rev s") auto
  then have x: "x = last s" using hd_rev [of s] by simp
  have "dropWhile py_isspace (x # xs) = x # xs" using b x by simp
  then have "dropWhile py_isspace (rev s) = rev s" by (simp only: rs)
  with 1 show ?thesis by (simp add: strip_def)
qed

lemma foldl_page_blocks:
  "foldl (\<lambda>acc (i, t). (acc @ A i) @ B t) acc (enumerate n xs) =
     acc @ concat (map (\<lambda>(i, t). A i @ B t) (enumerate n xs))"
  by (induction xs arbitrary: acc n) simp_all

lemma enumerate_nth_map:
  "map g (enumerate 0 xs) = map (\<lambda>i. g (i, xs ! i)) [0..<length xs]"
  by (rule nth_equalityI) (simp_all add: nth_enumerate_eq)

lemma full_doc_text_blocks:
  "full_doc_text pages =
     concat (map (\<lambda>i. ustr ''-- Page '' @ str_nat (i + 1) @ ustr '' --\<newline>''
                        @ strip (pages ! i) @ ustr ''\<newline>\<newline>'') [0..<length pages])"
proof -
  have "full_doc_text pages =
      concat (map (\<lambda>(i, t). (ustr ''-- Page '' @ str_nat (i + 1) @ ustr '' --\<newline>'')
                        @ (strip t @ ustr ''\<newline>\<newline>'')) (enumerate 0 pages))"
    unfolding full_doc_text_def by (simp only: foldl_page_blocks append_Nil)
  also have "\<dots> = concat (map (\<lambda>i. ustr ''-- Page '' @ str_nat (i + 1) @ ustr '' --\<newline>''
                        @ strip (pages ! i) @ ustr ''\<newline>\<newline>'') [0..<length pages])"
    by (simp only: enumerate_nth_map) simp
  finally show ?thesis .
qed

lemmas string_eval =
  full_doc_text_def ustr_def enumerate_eq_zip strip_def py_isspace_def str_nat.simps upt_rec

section \<open>Facts about the concrete environment\<close>

lemmas demo_defs =
  demo_doc_def demo_pixmap_def demo_recognizer_def demo_env_def failing_recognizer_def
  failing_env_def empty_doc_def empty_env_def demo_world_def

lemma demo_page_text:
  "page_text demo_env demo_doc 300 0 = Inr (ustr ''Hello'')"
  "page_text demo_env demo_doc 300 1 = Inr (ustr ''World'')"
  by (simp_all add: page_text_def page_to_pil_image_def Image_frombytes_def demo_defs)

lemma failing_page_text:
  "page_text (failing_env 0) demo_doc 300 0 = Inl (ustr ''boom'')"
  "page_text (failing_env 1) demo_doc 300 0 = Inr (ustr ''Hello'')"
  "page_text (failing_env 1) demo_doc 300 1 = Inl (ustr ''boom'')"
  by (simp_all add: page_text_def page_to_pil_image_def Image_frombytes_def demo_defs)

lemma upt_2: "[0..<2] = [0, Suc 0]"
  by (simp add: upt_rec)

lemma demo_process_pages:
  "process_pages demo_env demo_doc 300 [0..<2] [] = Inr [ustr ''Hello'', ustr ''World'']"
  using demo_page_text by (simp add: upt_2)

lemma failing_process_pages:
  "process_pages (failing_env 0) demo_doc 300 [0..<2] [] = Inl (ustr ''boom'')"
  "process_pages (failing_env 1) demo_doc 300 [0..<2] [] = Inl (ustr ''boom'')"
  using failing_page_text by (simp_all add: upt_2)

lemma demo_open:
  "fitz_open demo_env (ustr ''a.pdf'') = Inr demo_doc"
  "fitz_open (failing_env k) (ustr ''a.pdf'') = Inr demo_doc"
  "fitz_open empty_env p = Inr empty_doc"
  "page_count demo_doc = 2"
  "page_count empty_doc = 0"
  by (simp_all add: demo_defs)

section \<open>Facts about the page loop\<close>

lemma process_pages_ok:
  "(\<And>i. i \<in> set ps \<Longrightarrow> page_text env doc dpi i = Inr (f i)) \<Longrightarrow>
   process_pages env doc dpi ps acc = Inr (acc @ map f ps)"
  by (induction ps arbitrary: acc) simp_all

lemma process_pages_fails:
  "(\<And>j. j \<in> set pre \<Longrightarrow> \<exists>t. page_text env doc dpi j = Inr t) \<Longrightarrow>
   page_text env doc dpi i = Inl e \<Longrightarrow>
   process_pages env doc dpi (pre @ i # rest) acc = Inl e"
proof (induction pre arbitrary: acc)
  case Nil
  then show ?case by simp
next
  case (Cons j pre)
  from Cons.prems(1) [of j] obtain t where "page_text env doc dpi j = Inr t" by auto
  moreover have "process_pages env doc dpi (pre @ i # rest) (acc @ [t]) = Inl e"
    using Cons.prems by (intro Cons.IH) auto
  ultimately show ?case by simp
qed

lemma range_split: "i < n \<Longrightarrow> [0..<n] = [0..<i] @ i # [Suc i..<n]"
proof -
  assume "i < n"
  then have "[0..<n] = [0..<i] @ [i..<n]"
    using upt_add_eq_append [of 0 i "n - i"] by simp
  with \<open>i < n\<close> show ?thesis by (simp add: upt_conv_Cons)
qed

lemma process_pages_range_ok:
  assumes "\<forall>i<n. page_text env doc dpi i = Inr (f i)"
  shows "process_pages env doc dpi [0..<n] [] = Inr (map f [0..<n])"
  using process_pages_ok [of "[0..<n]" env doc dpi f "[]"] assms by simp

lemma process_pages_range_fails:
  assumes "i < n" and "\<forall>j<i. \<exists>t. page_text env doc dpi j = Inr t"
    and "page_text env doc dpi i = Inl e"
  shows "process_pages env doc dpi [0..<n] [] = Inl e"
proof -
  have "process_pages env doc dpi ([0..<i] @ i # [Suc i..<n]) [] = Inl e"
    using assms(2,3) by (intro process_pages_fails) auto
  with assms(1) show ?thesis by (simp add: range_split [symmetric])
qed

section \<open>Facts about the body and the call\<close>

lemma doc_close_simps [simp]:
  "closed_docs (doc_close doc w) = closed_docs w @ [doc_id doc]"
  "files (doc_close doc w) = files w"
  by (simp_all add: doc_close_def)

lemma write_to_txt_closed [simp]:
  "closed_docs (snd (write_to_txt env p texts w)) = closed_docs w"
  by (simp add: write_to_txt_def Let_def split: option.splits)

lemma write_to_txt_ok:
  assumes "open_raises env p = None" and "write_raises env p (full_doc_text texts) = None"
  shows "write_to_txt env p texts w =
           (Inr (), w\<lparr>files := (files w)(p \<mapsto> full_doc_text texts)\<rparr>)"
  using assms by (simp add: write_to_txt_def Let_def)

lemma write_to_txt_Inr:
  assumes "write_to_txt env p texts w = (Inr u, w')"
  shows "w' = w\<lparr>files := (files w)(p \<mapsto> full_doc_text texts)\<rparr>"
  using assms by (auto simp: write_to_txt_def Let_def split: option.splits)

lemma process_body_closed [simp]:
  "closed_docs (snd (process_body env doc dpi output_path w)) = closed_docs w"
proof -
  have "closed_docs w' = closed_docs w" if "write_to_txt env p texts w = (r, w')" for p texts r w'
    using write_to_txt_closed [of env p texts w] that by simp
  then show ?thesis
    by (auto simp: process_body_def split: sum.splits option.splits prod.splits)
qed

lemma process_body_pages_fail:
  "process_pages env doc dpi [0..<page_count doc] [] = Inl e \<Longrightarrow>
   process_body env doc dpi output_path w = (Inl e, w)"
  by (simp add: process_body_def)

lemma process_body_in_memory:
  assumes "process_pages env doc dpi [0..<page_count doc] [] = Inr texts"
    and "output_path = None \<or> output_path = Some []"
  shows "process_body env doc dpi output_path w = (Inr (Some texts), w)"
  using assms by (auto simp: process_body_def)

lemma process_body_persist:
  assumes "process_pages env doc dpi [0..<page_count doc] [] = Inr texts"
    and "p \<noteq> []"
  shows "process_body env doc dpi (Some p) w =
           (case write_to_txt env p texts w of
              (Inl e, w') \<Rightarrow> (Inl e, w')
            | (Inr u, w') \<Rightarrow> (Inr None, w'))"
  using assms by (simp add: process_body_def)

lemma process_pdf_open:
  "fitz_open env pdf_path = Inr doc \<Longrightarrow>
   process_pdf env pdf_path dpi output_path w =
     (fst (process_body env doc dpi output_path w),
      doc_close doc (snd (process_body env doc dpi output_path w)))"
  by (simp add: process_pdf_def split: prod.splits)

lemma mode_names_distinct: "ustr ''RGBA'' \<noteq> ustr ''RGB''"
  by (simp add: ustr_def)

lemma page_to_pil_image_size:
  assumes "page_to_pil_image env page dpi = Inr img"
  shows "\<exists>pix. get_pixmap env page
                 (fitz_Matrix (real_of_int dpi / 72) (real_of_int dpi / 72)) False = Inr pix
           \<and> im_size img = (width pix, height pix) \<and> im_data img = samples pix"
  using assms
  by (auto simp: page_to_pil_image_def Image_frombytes_def Let_def
        split: sum.splits option.splits)

lemma process_body_falsy:
  assumes "output_path = None \<or> output_path = Some []"
  shows "process_body env doc dpi output_path w =
           (case process_pages env doc dpi [0..<page_count doc] [] of
              Inl e \<Rightarrow> (Inl e, w)
            | Inr texts \<Rightarrow> (Inr (Some texts), w))"
  using assms by (auto simp: process_body_def split: sum.splits)

lemma process_body_persist_ok:
  assumes "process_pages env doc dpi [0..<page_count doc] [] = Inr texts"
    and "p \<noteq> []"
    and "open_raises env p = None"
    and "write_raises env p (full_doc_text texts) = None"
  shows "process_body env doc dpi (Some p) w =
           (Inr None, w\<lparr>files := (files w)(p \<mapsto> full_doc_text texts)\<rparr>)"
  by (simp add: process_body_persist [OF assms(1,2)] write_to_txt_ok [OF assms(3,4)])

lemma process_body_Inr:
  assumes "process_body env doc dpi output_path w = (Inr r, w')"
  shows "\<exists>texts. process_pages env doc dpi [0..<page_count doc] [] = Inr texts \<and>
           (\<forall>p. output_path = Some p \<and> p \<noteq> [] \<longrightarrow>
                  r = None \<and> w' = w\<lparr>files := (files w)(p \<mapsto> full_doc_text texts)\<rparr>) \<and>
           (output_path = None \<or> output_path = Some [] \<longrightarrow> r = Some texts \<and> w' = w)"
proof (cases "process_pages env doc dpi [0..<page_count doc] []")
  case (Inl e)
  with assms show ?thesis by (simp add: process_body_def)
next
  case (Inr texts)
  show ?thesis
  proof (cases "output_path = None \<or> output_path = Some []")
    case True
    with assms Inr show ?thesis by (auto simp: process_body_falsy)
  next
    case False
    then obtain p where p: "output_path = Some p" "p \<noteq> []" by auto
    obtain x w1 where x: "write_to_txt env p texts w = (x, w1)" by (cases "write_to_txt env p texts w")
    with assms Inr p have "x = Inr ()" "w' = w1" "r = None"
      by (auto simp: process_body_persist split: sum.splits)
    with x have "w' = w\<lparr>files := (files w)(p \<mapsto> full_doc_text texts)\<rparr>"
      using write_to_txt_Inr by metis
    with Inr p \<open>r = None\<close> show ?thesis by auto
  qed
qed

section \<open>Runs of the concrete environment\<close>

lemma demo_render:
  "page_to_pil_image demo_env 0 300 =
     Inr \<lparr>im_mode = ustr ''RGB'', im_size = (1, 1), im_data = [0, 0, 0]\<rparr>"
  by (simp add: page_to_pil_image_def Image_frombytes_def demo_defs)

lemma transparency_env_honours:
  "\<forall>m p. get_pixmap transparency_env page m False = Inr p \<longrightarrow> \<not> alpha p"
  by (auto simp: transparency_env_def honouring_pixmap_def)

lemma transparent_render:
  "page_to_pil_image transparency_env True 300 =
     Inr \<lparr>im_mode = ustr ''RGB'', im_size = (1, 1), im_data = [0, 0, 0]\<rparr>"
  by (simp add: page_to_pil_image_def Image_frombytes_def transparency_env_def
        honouring_pixmap_def)

lemma opaque_render:
  "page_to_pil_image transparency_env False 300 =
     Inr \<lparr>im_mode = ustr ''RGB'', im_size = (1, 1), im_data = [0, 0, 0]\<rparr>"
  by (simp add: page_to_pil_image_def Image_frombytes_def transparency_env_def
        honouring_pixmap_def)

lemma failing_process_pdf:
  "fst (process_pdf (failing_env 0) (ustr ''a.pdf'') 300 output_path demo_world)
     = Inl (ustr ''boom'')"
  "fst (process_pdf (failing_env 1) (ustr ''a.pdf'') 300 output_path demo_world)
     = Inl (ustr ''boom'')"
  using failing_process_pages
  by (simp_all only: process_pdf_open [OF demo_open(2)] demo_open(4)
        process_body_pages_fail fst_conv)

lemma failing_1_prior: "\<forall>j<1. \<exists>t. page_text (failing_env 1) demo_doc 300 j = Inr t"
proof (intro allI impI)
  fix j :: nat
  assume "j < 1"
  then have "j = 0" by simp
  then show "\<exists>t. page_text (failing_env 1) demo_doc 300 j = Inr t"
    using failing_page_text(2) by blast
qed

lemma one_less_demo: "1 < page_count demo_doc"
  by (simp add: demo_open)

lemma demo_pages_ok: "\<forall>i<page_count demo_doc. page_text demo_env demo_doc 300 i = Inr (demo_texts i)"
proof (intro allI impI)
  fix i assume "i < page_count demo_doc"
  then have "i = 0 \<or> i = 1" by (auto simp: demo_open)
  then show "page_text demo_env demo_doc 300 i = Inr (demo_texts i)"
    using demo_page_text by (auto simp: demo_texts_def)
qed

lemma demo_texts_list: "map demo_texts [0..<page_count demo_doc] = [ustr ''Hello'', ustr ''World'']"
  by (simp add: demo_open upt_2 demo_texts_def)

lemma out_txt_nonempty: "ustr ''out.txt'' \<noteq> []"
  by (simp add: ustr_def)

lemma demo_sink:
  "open_raises demo_env p = None"
  "write_raises demo_env p txt = None"
  "open_raises (failing_env k) p = None"
  "write_raises (failing_env k) p txt = None"
  "open_raises empty_env p = None"
  "write_raises empty_env p txt = None"
  "open_raises unwritable_env p = Some (ustr ''permission denied'')"
  "fitz_open unwritable_env (ustr ''a.pdf'') = Inr demo_doc"
  by (simp_all add: demo_defs unwritable_env_def)

lemma demo_world_simps:
  "files demo_world = Map.empty"
  "closed_docs demo_world = []"
  "doc_id demo_doc = 7"
  "doc_id empty_doc = 7"
  by (simp_all add: demo_defs)

lemma unwritable_page_text:
  "page_text unwritable_env demo_doc 300 0 = Inr (ustr ''Hello'')"
  "page_text unwritable_env demo_doc 300 1 = Inr (ustr ''World'')"
  by (simp_all add: page_text_def page_to_pil_image_def Image_frombytes_def demo_defs
        unwritable_env_def)

lemma unwritable_process_pages:
  "process_pages unwritable_env demo_doc 300 [0..<2] [] = Inr [ustr ''Hello'', ustr ''World'']"
  using unwritable_page_text by (simp add: upt_2)

lemma demo_run_memory:
  "process_pdf demo_env (ustr ''a.pdf'') 300 None demo_world =
     (Inr (Some [ustr ''Hello'', ustr ''World'']), doc_close demo_doc demo_world)"
  using demo_process_pages
  by (simp add: process_pdf_open [OF demo_open(1)] demo_open(4) process_body_in_memory)

lemma demo_run_persist:
  "process_pdf demo_env (ustr ''a.pdf'') 300 (Some (ustr ''out.txt'')) demo_world =
     (Inr None, doc_close demo_doc (demo_world\<lparr>files := (files demo_world)
        (ustr ''out.txt'' \<mapsto> full_doc_text [ustr ''Hello'', ustr ''World''])\<rparr>))"
  using demo_process_pages out_txt_nonempty
  by (simp add: process_pdf_open [OF demo_open(1)] demo_open(4) process_body_persist_ok
        demo_sink)

lemma unwritable_run:
  "process_pdf unwritable_env (ustr ''a.pdf'') 300 (Some (ustr ''out.txt'')) demo_world =
     (Inl (ustr ''permission denied''), doc_close demo_doc demo_world)"
  using unwritable_process_pages out_txt_nonempty
  by (simp add: process_pdf_open [OF demo_sink(8)] demo_open(4) process_body_persist
        write_to_txt_def demo_sink)

section \<open>The claims\<close>

text \<open>
  C1, as stated, fails: the pixmap is always requested with \<^verbatim>\<open>alpha=False\<close>, so with a
  rasterizer that honours the request a page that declares transparency and a page that
  does not are both rendered as \<^verbatim>\<open>RGB\<close> images; the mode does not follow the source page.
\<close>

theorem C1_counterexample:
  "page_to_pil_image transparency_env True 300 =
     Inr \<lparr>im_mode = ustr ''RGB'', im_size = (1, 1), im_data = [0, 0, 0]\<rparr>
   \<and> page_to_pil_image transparency_env False 300 =
     Inr \<lparr>im_mode = ustr ''RGB'', im_size = (1, 1), im_data = [0, 0, 0]\<rparr>
   \<and> ustr ''RGB'' \<noteq> ustr ''RGBA''"
  using transparent_render opaque_render mode_names_distinct by (intro conjI) auto

text \<open>
  C1, amended. The image produced for a page has pixel mode \<^verbatim>\<open>RGBA\<close> when the pixmap
  returned by the rasterizer (asked for the page at one scale on both axes, without alpha)
  carries an alpha channel, and \<^verbatim>\<open>RGB\<close> otherwise; when the rasterizer honours the
  request, the mode is \<^verbatim>\<open>RGB\<close> whatever the transparency of the source page.
\<close>

theorem C1_pixel_mode:
  assumes "page_to_pil_image env page dpi = Inr img"
  shows "\<exists>z pix. get_pixmap env page (fitz_Matrix z z) False = Inr pix
           \<and> (im_mode img = ustr ''RGBA'' \<longleftrightarrow> alpha pix)
           \<and> (im_mode img = ustr ''RGB'' \<longleftrightarrow> \<not> alpha pix)
           \<and> ((\<forall>m p. get_pixmap env page m False = Inr p \<longrightarrow> \<not> alpha p)
                \<longrightarrow> im_mode img = ustr ''RGB'')"
proof (cases "get_pixmap env page
                 (fitz_Matrix (real_of_int dpi / 72) (real_of_int dpi / 72)) False")
  case (Inl e)
  with assms show ?thesis by (simp add: page_to_pil_image_def)
next
  case (Inr pix)
  with assms have m: "im_mode img = (if alpha pix then ustr ''RGBA'' else ustr ''RGB'')"
    by (auto simp: page_to_pil_image_def Image_frombytes_def Let_def split: option.splits)
  have "(\<forall>m p. get_pixmap env page m False = Inr p \<longrightarrow> \<not> alpha p)
                \<longrightarrow> im_mode img = ustr ''RGB''"
    using Inr m by auto
  with Inr m mode_names_distinct show ?thesis
    by (intro exI [of _ "real_of_int dpi / 72"] exI [of _ pix]) auto
qed

theorem C1_pixel_mode_witness:
  "page_to_pil_image transparency_env True 300 =
     Inr \<lparr>im_mode = ustr ''RGB'', im_size = (1, 1), im_data = [0, 0, 0]\<rparr>
   \<and> im_mode \<lparr>im_mode = ustr ''RGB'', im_size = (1, 1), im_data = [0, 0, 0]\<rparr> = ustr ''RGB''
   \<and> im_mode \<lparr>im_mode = ustr ''RGB'', im_size = (1, 1), im_data = [0, 0, 0]\<rparr> \<noteq> ustr ''RGBA''"
proof -
  from C1_pixel_mode [OF transparent_render] obtain z pix where
    p: "get_pixmap transparency_env True (fitz_Matrix z z) False = Inr pix"
    and a: "im_mode \<lparr>im_mode = ustr ''RGB'', im_size = (1, 1), im_data = [0, 0, 0]\<rparr>
              = ustr ''RGBA'' \<longleftrightarrow> alpha pix"
    and h: "(\<forall>m p. get_pixmap transparency_env True m False = Inr p \<longrightarrow> \<not> alpha p)
              \<longrightarrow> im_mode \<lparr>im_mode = ustr ''RGB'', im_size = (1, 1), im_data = [0, 0, 0]\<rparr>
                    = ustr ''RGB''"
    by blast
  from h transparency_env_honours have
    1: "im_mode \<lparr>im_mode = ustr ''RGB'', im_size = (1, 1), im_data = [0, 0, 0]\<rparr> = ustr ''RGB''"
    by blast
  from p transparency_env_honours have "\<not> alpha pix" by blast
  with a have
    2: "im_mode \<lparr>im_mode = ustr ''RGB'', im_size = (1, 1), im_data = [0, 0, 0]\<rparr> \<noteq> ustr ''RGBA''"
    by blast
  from transparent_render 1 2 show ?thesis by (intro conjI)
qed

text \<open>
  C2, as stated, fails: the exception that reaches the caller is the same whether the
  recognizer raised on page 0 or on page 1, so it does not carry the failing page index.
\<close>

theorem C2_counterexample:
  "page_text (failing_env 0) demo_doc 300 0 = Inl (ustr ''boom'')
   \<and> fst (process_pdf (failing_env 0) (ustr ''a.pdf'') 300 None demo_world) = Inl (ustr ''boom'')
   \<and> page_text (failing_env 1) demo_doc 300 0 = Inr (ustr ''Hello'')
   \<and> page_text (failing_env 1) demo_doc 300 1 = Inl (ustr ''boom'')
   \<and> fst (process_pdf (failing_env 1) (ustr ''a.pdf'') 300 None demo_world) = Inl (ustr ''boom'')"
  by (intro conjI, rule failing_page_text, rule failing_process_pdf, rule failing_page_text,
      rule failing_page_text, rule failing_process_pdf)

text \<open>
  C2, amended. When rendering or recognition fails at a page, every earlier page having
  succeeded, \<^verbatim>\<open>process_pdf\<close> aborts the run and re-raises exactly the exception of the
  failing call, unchanged, whatever the output path; it adds no page index.
\<close>

theorem C2_error_resignalled:
  assumes "fitz_open env pdf_path = Inr doc"
    and "i < page_count doc"
    and "\<forall>j<i. \<exists>t. page_text env doc dpi j = Inr t"
    and "page_text env doc dpi i = Inl e"
  shows "fst (process_pdf env pdf_path dpi output_path w) = Inl e"
proof -
  have "process_pages env doc dpi [0..<page_count doc] [] = Inl e"
    using assms(2-4) by (rule process_pages_range_fails)
  then show ?thesis
    by (simp add: process_pdf_open [OF assms(1)] process_body_pages_fail)
qed

theorem C2_error_resignalled_witness:
  "fitz_open (failing_env 1) (ustr ''a.pdf'') = Inr demo_doc
   \<and> 1 < page_count demo_doc
   \<and> page_text (failing_env 1) demo_doc 300 0 = Inr (ustr ''Hello'')
   \<and> page_text (failing_env 1) demo_doc 300 1 = Inl (ustr ''boom'')
   \<and> fst (process_pdf (failing_env 1) (ustr ''a.pdf'') 300 (Some (ustr ''out.txt'')) demo_world)
       = Inl (ustr ''boom'')"
  by (intro conjI, rule demo_open, rule one_less_demo, rule failing_page_text,
      rule failing_page_text,
      rule C2_error_resignalled [OF demo_open(2) one_less_demo failing_1_prior
        failing_page_text(3)])

text \<open>
  C3. For a document with \<open>N\<close> pages on which rendering and recognition succeed for every
  page, \<^verbatim>\<open>process_pdf\<close> produces exactly \<open>N\<close> page texts, the \<open>i\<close>-th being the text of page
  \<open>i\<close>: it returns this list when the output path is absent or empty, and otherwise, the
  sink accepting the write, stores the transcript of this list at the output path.
\<close>

theorem C3_all_pages_in_order:
  assumes "fitz_open env pdf_path = Inr doc"
    and "\<forall>i<page_count doc. page_text env doc dpi i = Inr (f i)"
    and "texts = map f [0..<page_count doc]"
  shows "length texts = page_count doc
       \<and> (\<forall>i<page_count doc. texts ! i = f i)
       \<and> (output_path = None \<or> output_path = Some [] \<longrightarrow>
            process_pdf env pdf_path dpi output_path w = (Inr (Some texts), doc_close doc w))
       \<and> (\<forall>p. output_path = Some p \<and> p \<noteq> [] \<and> open_raises env p = None
                \<and> write_raises env p (full_doc_text texts) = None \<longrightarrow>
            process_pdf env pdf_path dpi output_path w =
              (Inr None, doc_close doc (w\<lparr>files := (files w)(p \<mapsto> full_doc_text texts)\<rparr>)))"
proof -
  have pages: "process_pages env doc dpi [0..<page_count doc] [] = Inr texts"
    using process_pages_range_ok [OF assms(2)] assms(3) by simp
  have "length texts = page_count doc" "\<forall>i<page_count doc. texts ! i = f i"
    using assms(3) by simp_all
  moreover have "process_pdf env pdf_path dpi output_path w = (Inr (Some texts), doc_close doc w)"
    if "output_path = None \<or> output_path = Some []"
    by (simp add: process_pdf_open [OF assms(1)] process_body_in_memory [OF pages that])
  moreover have "process_pdf env pdf_path dpi output_path w =
              (Inr None, doc_close doc (w\<lparr>files := (files w)(p \<mapsto> full_doc_text texts)\<rparr>))"
    if "output_path = Some p \<and> p \<noteq> [] \<and> open_raises env p = None
                \<and> write_raises env p (full_doc_text texts) = None" for p
    using that by (simp add: process_pdf_open [OF assms(1)] process_body_persist_ok [OF pages])
  ultimately show ?thesis by blast
qed

theorem C3_all_pages_in_order_witness:
  "fitz_open demo_env (ustr ''a.pdf'') = Inr demo_doc
   \<and> page_text demo_env demo_doc 300 0 = Inr (ustr ''Hello'')
   \<and> page_text demo_env demo_doc 300 1 = Inr (ustr ''World'')
   \<and> process_pdf demo_env (ustr ''a.pdf'') 300 None demo_world =
       (Inr (Some [ustr ''Hello'', ustr ''World'']), doc_close demo_doc demo_world)
   \<and> process_pdf demo_env (ustr ''a.pdf'') 300 (Some (ustr ''out.txt'')) demo_world =
       (Inr None, doc_close demo_doc (demo_world\<lparr>files := (files demo_world)
          (ustr ''out.txt'' \<mapsto> full_doc_text [ustr ''Hello'', ustr ''World''])\<rparr>))"
proof -
  note inst = C3_all_pages_in_order [OF demo_open(1) demo_pages_ok refl]
  have "process_pdf demo_env (ustr ''a.pdf'') 300 None demo_world =
       (Inr (Some [ustr ''Hello'', ustr ''World'']), doc_close demo_doc demo_world)"
    using inst [of None demo_world] by (simp only: demo_texts_list) simp
  moreover have "process_pdf demo_env (ustr ''a.pdf'') 300 (Some (ustr ''out.txt'')) demo_world =
       (Inr None, doc_close demo_doc (demo_world\<lparr>files := (files demo_world)
          (ustr ''out.txt'' \<mapsto> full_doc_text [ustr ''Hello'', ustr ''World''])\<rparr>))"
    using inst [of "Some (ustr ''out.txt'')" demo_world] out_txt_nonempty
    by (simp only: demo_texts_list) (simp add: demo_sink)
  ultimately show ?thesis using demo_open(1) demo_page_text by simp
qed

text \<open>
  C4. For every list of page texts, the formatted transcript is the in-order concatenation,
  over the zero-based indices \<open>i\<close>, of the blocks \<^verbatim>\<open>"-- Page {i+1} --\n"\<close>, the page text
  with leading and trailing whitespace trimmed, and \<^verbatim>\<open>"\n\n"\<close>. The trim removes a prefix and
  a suffix made of whitespace only and leaves a text that neither starts nor ends with
  whitespace, so the inside of the page text is unchanged; the label holds the decimal digits
  of \<open>i + 1\<close> without leading zero. For the list \<^verbatim>\<open>["Hello", "World"]\<close> the transcript is exactly
  \<^verbatim>\<open>"-- Page 1 --\nHello\n\n-- Page 2 --\nWorld\n\n"\<close>; page texts with whitespace around
  and inside them, and a page of whitespace only, are shown as well.
\<close>

theorem C4_transcript_format:
  "full_doc_text pages =
     concat (map (\<lambda>i. ustr ''-- Page '' @ str_nat (i + 1) @ ustr '' --\<newline>''
                        @ strip (pages ! i) @ ustr ''\<newline>\<newline>'') [0..<length pages])
   \<and> (\<exists>l r. s = l @ strip s @ r \<and> list_all py_isspace l \<and> list_all py_isspace r)
   \<and> (strip s = [] \<or> (\<not> py_isspace (hd (strip s)) \<and> \<not> py_isspace (last (strip s))))
   \<and> foldl (\<lambda>a d. 10 * a + (d - 48)) 0 (str_nat n) = n
   \<and> list_all (\<lambda>d. 48 \<le> d \<and> d \<le> 57) (str_nat n)
   \<and> (n = 0 \<or> hd (str_nat n) \<noteq> 48)
   \<and> full_doc_text [ustr ''Hello'', ustr ''World''] =
     ustr ''-- Page 1 --\<newline>Hello\<newline>\<newline>-- Page 2 --\<newline>World\<newline>\<newline>''
   \<and> full_doc_text [ustr '' \<newline>  Hello,  World \<newline>\<newline>'', ustr '' \<newline> '', ustr ''x''] =
     ustr ''-- Page 1 --\<newline>Hello,  World\<newline>\<newline>-- Page 2 --\<newline>\<newline>\<newline>-- Page 3 --\<newline>x\<newline>\<newline>''
   \<and> strip (9 # 11 # 12 # 13 # 28 # 31 # 0x85 # 0xA0 # 0x2003 # 0x3000 # ustr ''a b'' @ [0x2028, 0x1680, 32])
       = ustr ''a b''
   \<and> str_nat 0 = ustr ''0'' \<and> str_nat 10 = ustr ''10'' \<and> str_nat 120 = ustr ''120''"
proof (intro conjI)
  show "full_doc_text pages =
     concat (map (\<lambda>i. ustr ''-- Page '' @ str_nat (i + 1) @ ustr '' --\<newline>''
                        @ strip (pages ! i) @ ustr ''\<newline>\<newline>'') [0..<length pages])"
    by (rule full_doc_text_blocks)
  show "\<exists>l r. s = l @ strip s @ r \<and> list_all py_isspace l \<and> list_all py_isspace r"
    by (rule strip_decompose)
  show "strip s = [] \<or> (\<not> py_isspace (hd (strip s)) \<and> \<not> py_isspace (last (strip s)))"
    by (rule strip_ends)
  show "foldl (\<lambda>a d. 10 * a + (d - 48)) 0 (str_nat n) = n"
    by (rule str_nat_value)
  show "list_all (\<lambda>d. 48 \<le> d \<and> d \<le> 57) (str_nat n)"
    by (rule str_nat_digits)
  show "n = 0 \<or> hd (str_nat n) \<noteq> 48"
    using str_nat_no_leading_zero [of n] by auto
  show "full_doc_text [ustr ''Hello'', ustr ''World''] =
     ustr ''-- Page 1 --\<newline>Hello\<newline>\<newline>-- Page 2 --\<newline>World\<newline>\<newline>''"
    by (simp add: string_eval)
  show "full_doc_text [ustr '' \<newline>  Hello,  World \<newline>\<newline>'', ustr '' \<newline> '', ustr ''x''] =
     ustr ''-- Page 1 --\<newline>Hello,  World\<newline>\<newline>-- Page 2 --\<newline>\<newline>\<newline>-- Page 3 --\<newline>x\<newline>\<newline>''"
    by (simp add: string_eval)
  show "strip (9 # 11 # 12 # 13 # 28 # 31 # 0x85 # 0xA0 # 0x2003 # 0x3000 # ustr ''a b'' @ [0x2028, 0x1680, 32])
       = ustr ''a b''"
    by (simp add: string_eval)
  show "str_nat 0 = ustr ''0''" by (simp add: string_eval)
  show "str_nat 10 = ustr ''10''" by (simp add: string_eval)
  show "str_nat 120 = ustr ''120''" by (simp add: string_eval)
qed

theorem C4_transcript_format_witness:
  "full_doc_text [ustr '' Hi \<newline>''] = ustr ''-- Page 1 --\<newline>Hi\<newline>\<newline>''
   \<and> strip (ustr '' Hi \<newline>'') = ustr ''Hi''"
proof -
  note inst = C4_transcript_format [of "[ustr '' Hi \<newline>'']" "ustr '' Hi \<newline>''" 1]
  have s: "strip (ustr '' Hi \<newline>'') = ustr ''Hi''"
    by (simp add: string_eval)
  from inst have "full_doc_text [ustr '' Hi \<newline>''] =
     concat (map (\<lambda>i. ustr ''-- Page '' @ str_nat (i + 1) @ ustr '' --\<newline>''
                        @ strip ([ustr '' Hi \<newline>''] ! i) @ ustr ''\<newline>\<newline>'')
               [0..<length [ustr '' Hi \<newline>'']])"
    by (rule conjunct1)
  also have "\<dots> = ustr ''-- Page 1 --\<newline>Hi\<newline>\<newline>''"
    by (simp add: string_eval)
  finally show ?thesis using s by (rule conjI)
qed

text \<open>
  C5, as stated, fails: with the empty string given as output path a successful run returns
  the list of page texts and persists nothing.
\<close>

theorem C5_counterexample:
  "process_pdf demo_env (ustr ''a.pdf'') 300 (Some []) demo_world =
     (Inr (Some [ustr ''Hello'', ustr ''World'']), doc_close demo_doc demo_world)
   \<and> files (doc_close demo_doc demo_world) [] = None"
  using demo_process_pages
  by (simp add: process_pdf_open [OF demo_open(1)] demo_open(4) process_body_in_memory
        demo_world_simps)

text \<open>
  C5, amended. For every successful run of \<^verbatim>\<open>process_pdf\<close>: if a non-empty output path is
  given, the transcript of the page texts is stored at that path, no other file changes and
  \<^verbatim>\<open>None\<close> is returned; if the output path is absent or the empty string, the list of
  page texts is returned and no file is created or changed.
\<close>

theorem C5_mode_selection:
  assumes "process_pdf env pdf_path dpi output_path w = (Inr r, w')"
  shows "\<exists>doc texts.
           fitz_open env pdf_path = Inr doc
         \<and> process_pages env doc dpi [0..<page_count doc] [] = Inr texts
         \<and> (\<forall>p. output_path = Some p \<and> p \<noteq> [] \<longrightarrow>
                r = None \<and> files w' = (files w)(p \<mapsto> full_doc_text texts))
         \<and> (output_path = None \<or> output_path = Some [] \<longrightarrow>
                r = Some texts \<and> files w' = files w)"
proof (cases "fitz_open env pdf_path")
  case (Inl e)
  with assms show ?thesis by (simp add: process_pdf_def)
next
  case (Inr doc)
  obtain w1 where body: "process_body env doc dpi output_path w = (Inr r, w1)"
    and w': "w' = doc_close doc w1"
    using assms by (cases "process_body env doc dpi output_path w")
      (simp add: process_pdf_open [OF Inr])
  from process_body_Inr [OF body] obtain texts where
    "process_pages env doc dpi [0..<page_count doc] [] = Inr texts"
    "\<forall>p. output_path = Some p \<and> p \<noteq> [] \<longrightarrow>
           r = None \<and> w1 = w\<lparr>files := (files w)(p \<mapsto> full_doc_text texts)\<rparr>"
    "output_path = None \<or> output_path = Some [] \<longrightarrow> r = Some texts \<and> w1 = w"
    by blast
  with Inr w' show ?thesis by (intro exI [of _ doc] exI [of _ texts]) auto
qed

theorem C5_mode_selection_witness:
  "process_pdf demo_env (ustr ''a.pdf'') 300 (Some (ustr ''out.txt'')) demo_world =
     (Inr None, doc_close demo_doc (demo_world\<lparr>files := (files demo_world)
        (ustr ''out.txt'' \<mapsto> full_doc_text [ustr ''Hello'', ustr ''World''])\<rparr>))
   \<and> files (doc_close demo_doc (demo_world\<lparr>files := (files demo_world)
        (ustr ''out.txt'' \<mapsto> full_doc_text [ustr ''Hello'', ustr ''World''])\<rparr>))
       = (files demo_world)(ustr ''out.txt'' \<mapsto> full_doc_text [ustr ''Hello'', ustr ''World''])"
proof -
  from C5_mode_selection [OF demo_run_persist] obtain doc texts where
    d: "fitz_open demo_env (ustr ''a.pdf'') = Inr doc"
    and t: "process_pages demo_env doc 300 [0..<page_count doc] [] = Inr texts"
    and f: "\<forall>p. Some (ustr ''out.txt'') = Some p \<and> p \<noteq> [] \<longrightarrow>
          (None :: pystr list option) = None \<and>
          files (doc_close demo_doc (demo_world\<lparr>files := (files demo_world)
            (ustr ''out.txt'' \<mapsto> full_doc_text [ustr ''Hello'', ustr ''World''])\<rparr>))
            = (files demo_world)(p \<mapsto> full_doc_text texts)"
    by blast
  from d have "doc = demo_doc" by (simp add: demo_open)
  with t have "texts = [ustr ''Hello'', ustr ''World'']"
    using demo_process_pages by (simp add: demo_open)
  with f out_txt_nonempty have "files (doc_close demo_doc (demo_world\<lparr>files := (files demo_world)
        (ustr ''out.txt'' \<mapsto> full_doc_text [ustr ''Hello'', ustr ''World''])\<rparr>))
       = (files demo_world)(ustr ''out.txt'' \<mapsto> full_doc_text [ustr ''Hello'', ustr ''World''])"
    by blast
  with demo_run_persist show ?thesis by (rule conjI)
qed

text \<open>
  C6. Whenever the document was opened, its handle is closed exactly once by the time
  \<^verbatim>\<open>process_pdf\<close> returns or raises: on success, when a page fails and when the write
  fails.
\<close>

theorem C6_document_closed_once:
  assumes "fitz_open env pdf_path = Inr doc"
  shows "closed_docs (snd (process_pdf env pdf_path dpi output_path w))
           = closed_docs w @ [doc_id doc]"
  by (simp add: process_pdf_open [OF assms])

theorem C6_document_closed_once_witness:
  "fitz_open (failing_env 1) (ustr ''a.pdf'') = Inr demo_doc
   \<and> fst (process_pdf (failing_env 1) (ustr ''a.pdf'') 300 (Some (ustr ''out.txt'')) demo_world)
       = Inl (ustr ''boom'')
   \<and> closed_docs (snd (process_pdf (failing_env 1) (ustr ''a.pdf'') 300
         (Some (ustr ''out.txt'')) demo_world)) = [7]
   \<and> fitz_open unwritable_env (ustr ''a.pdf'') = Inr demo_doc
   \<and> fst (process_pdf unwritable_env (ustr ''a.pdf'') 300 (Some (ustr ''out.txt'')) demo_world)
       = Inl (ustr ''permission denied'')
   \<and> closed_docs (snd (process_pdf unwritable_env (ustr ''a.pdf'') 300
         (Some (ustr ''out.txt'')) demo_world)) = [7]"
proof -
  have "closed_docs (snd (process_pdf (failing_env 1) (ustr ''a.pdf'') 300
         (Some (ustr ''out.txt'')) demo_world)) = [7]"
    using C6_document_closed_once [OF demo_open(2), of 1 300 "Some (ustr ''out.txt'')" demo_world]
    by (simp only: demo_world_simps append_Nil)
  moreover have "closed_docs (snd (process_pdf unwritable_env (ustr ''a.pdf'') 300
         (Some (ustr ''out.txt'')) demo_world)) = [7]"
    using C6_document_closed_once [OF demo_sink(8), of 300 "Some (ustr ''out.txt'')" demo_world]
    by (simp only: demo_world_simps append_Nil)
  ultimately show ?thesis
    using demo_open(2) [of 1] demo_sink(8) failing_process_pdf(2) unwritable_run
    by (simp only: fst_conv simp_thms)
qed

text \<open>
  C7. When a run fails at some page, the texts of the earlier pages are discarded: the call
  raises, returns no list, and leaves every file as it was. The output file, when requested,
  holds the whole transcript after a successful run.
\<close>

theorem C7_no_partial_results:
  assumes "fitz_open env pdf_path = Inr doc"
  shows "(\<forall>i e. i < page_count doc \<and> (\<forall>j<i. \<exists>t. page_text env doc dpi j = Inr t)
                 \<and> page_text env doc dpi i = Inl e \<longrightarrow>
            process_pdf env pdf_path dpi output_path w = (Inl e, doc_close doc w)
            \<and> files (snd (process_pdf env pdf_path dpi output_path w)) = files w)
       \<and> (\<forall>f p. (\<forall>i<page_count doc. page_text env doc dpi i = Inr (f i))
                 \<and> output_path = Some p \<and> p \<noteq> [] \<and> open_raises env p = None
                 \<and> write_raises env p (full_doc_text (map f [0..<page_count doc])) = None \<longrightarrow>
            files (snd (process_pdf env pdf_path dpi output_path w))
              = (files w)(p \<mapsto> full_doc_text (map f [0..<page_count doc])))"
proof (intro conjI allI impI)
  fix i e
  assume a: "i < page_count doc \<and> (\<forall>j<i. \<exists>t. page_text env doc dpi j = Inr t)
                 \<and> page_text env doc dpi i = Inl e"
  then have "process_pages env doc dpi [0..<page_count doc] [] = Inl e"
    by (intro process_pages_range_fails [of i]) auto
  then show run: "process_pdf env pdf_path dpi output_path w = (Inl e, doc_close doc w)"
    by (simp add: process_pdf_open [OF assms] process_body_pages_fail)
  show "files (snd (process_pdf env pdf_path dpi output_path w)) = files w"
    by (simp add: run)
next
  fix f p
  assume a: "(\<forall>i<page_count doc. page_text env doc dpi i = Inr (f i))
                 \<and> output_path = Some p \<and> p \<noteq> [] \<and> open_raises env p = None
                 \<and> write_raises env p (full_doc_text (map f [0..<page_count doc])) = None"
  then have "process_pages env doc dpi [0..<page_count doc] [] = Inr (map f [0..<page_count doc])"
    by (intro process_pages_range_ok) auto
  with a show "files (snd (process_pdf env pdf_path dpi output_path w))
              = (files w)(p \<mapsto> full_doc_text (map f [0..<page_count doc]))"
    by (simp add: process_pdf_open [OF assms] process_body_persist_ok)
qed

theorem C7_no_partial_results_witness:
  "fitz_open (failing_env 1) (ustr ''a.pdf'') = Inr demo_doc
   \<and> page_text (failing_env 1) demo_doc 300 0 = Inr (ustr ''Hello'')
   \<and> page_text (failing_env 1) demo_doc 300 1 = Inl (ustr ''boom'')
   \<and> process_pdf (failing_env 1) (ustr ''a.pdf'') 300 (Some (ustr ''out.txt'')) demo_world
       = (Inl (ustr ''boom''), doc_close demo_doc demo_world)
   \<and> files (snd (process_pdf (failing_env 1) (ustr ''a.pdf'') 300 (Some (ustr ''out.txt''))
        demo_world)) = Map.empty
   \<and> fitz_open demo_env (ustr ''a.pdf'') = Inr demo_doc
   \<and> files (snd (process_pdf demo_env (ustr ''a.pdf'') 300 (Some (ustr ''out.txt''))
        demo_world)) = [ustr ''out.txt'' \<mapsto> full_doc_text [ustr ''Hello'', ustr ''World'']]"
proof -
  note fail = C7_no_partial_results [OF demo_open(2), of 1 300 "Some (ustr ''out.txt'')" demo_world,
      THEN conjunct1, rule_format, of 1 "ustr ''boom''"]
  have prem: "1 < page_count demo_doc \<and>
      (\<forall>j<1. \<exists>t. page_text (failing_env 1) demo_doc 300 j = Inr t) \<and>
      page_text (failing_env 1) demo_doc 300 1 = Inl (ustr ''boom'')"
    using one_less_demo failing_1_prior failing_page_text(3) by (intro conjI)
  note ok = C7_no_partial_results [OF demo_open(1), of 300 "Some (ustr ''out.txt'')" demo_world,
      THEN conjunct2, rule_format, of demo_texts "ustr ''out.txt''"]
  have prem2: "(\<forall>i<page_count demo_doc. page_text demo_env demo_doc 300 i = Inr (demo_texts i))
      \<and> Some (ustr ''out.txt'') = Some (ustr ''out.txt'') \<and> ustr ''out.txt'' \<noteq> []
      \<and> open_raises demo_env (ustr ''out.txt'') = None
      \<and> write_raises demo_env (ustr ''out.txt'')
           (full_doc_text (map demo_texts [0..<page_count demo_doc])) = None"
    using demo_pages_ok out_txt_nonempty demo_sink(1,2) by (intro conjI) simp_all
  have a: "process_pdf (failing_env 1) (ustr ''a.pdf'') 300 (Some (ustr ''out.txt'')) demo_world
       = (Inl (ustr ''boom''), doc_close demo_doc demo_world)"
    and b: "files (snd (process_pdf (failing_env 1) (ustr ''a.pdf'') 300 (Some (ustr ''out.txt''))
        demo_world)) = Map.empty"
    using fail [OF prem] by (simp_all add: demo_world_simps)
  have c: "files (snd (process_pdf demo_env (ustr ''a.pdf'') 300 (Some (ustr ''out.txt''))
        demo_world)) = [ustr ''out.txt'' \<mapsto> full_doc_text [ustr ''Hello'', ustr ''World'']]"
    using ok [OF prem2] by (simp only: demo_world_simps demo_texts_list)
  show ?thesis
    using demo_open(2) [of 1] failing_page_text(2,3) a b demo_open(1) c by (intro conjI)
qed

text \<open>
  C8. For a document without pages \<^verbatim>\<open>process_pdf\<close> does not fail on that account: it
  returns the empty list, or, given a non-empty output path that the sink accepts, stores
  the empty transcript, which has no delimiter line.
\<close>

theorem C8_zero_pages:
  assumes "fitz_open env pdf_path = Inr doc"
    and "page_count doc = 0"
  shows "(output_path = None \<or> output_path = Some [] \<longrightarrow>
            process_pdf env pdf_path dpi output_path w = (Inr (Some []), doc_close doc w))
       \<and> (\<forall>p. output_path = Some p \<and> p \<noteq> [] \<and> open_raises env p = None
                \<and> write_raises env p [] = None \<longrightarrow>
            process_pdf env pdf_path dpi output_path w =
              (Inr None, doc_close doc (w\<lparr>files := (files w)(p \<mapsto> [])\<rparr>)))
       \<and> full_doc_text [] = []"
proof -
  have pages: "process_pages env doc dpi [0..<page_count doc] [] = Inr []"
    by (simp add: assms(2))
  have empty: "full_doc_text [] = []"
    by (simp add: full_doc_text_def)
  have "process_pdf env pdf_path dpi output_path w = (Inr (Some []), doc_close doc w)"
    if "output_path = None \<or> output_path = Some []"
    by (simp add: process_pdf_open [OF assms(1)] process_body_in_memory [OF pages that])
  moreover have "process_pdf env pdf_path dpi output_path w =
              (Inr None, doc_close doc (w\<lparr>files := (files w)(p \<mapsto> [])\<rparr>))"
    if "output_path = Some p \<and> p \<noteq> [] \<and> open_raises env p = None
                \<and> write_raises env p [] = None" for p
    using that process_body_persist_ok [OF pages, of p w]
    by (simp add: process_pdf_open [OF assms(1)] empty)
  ultimately show ?thesis using empty by blast
qed

theorem C8_zero_pages_witness:
  "fitz_open empty_env (ustr ''a.pdf'') = Inr empty_doc
   \<and> page_count empty_doc = 0
   \<and> process_pdf empty_env (ustr ''a.pdf'') 300 None demo_world
       = (Inr (Some []), doc_close empty_doc demo_world)
   \<and> process_pdf empty_env (ustr ''a.pdf'') 300 (Some (ustr ''out.txt'')) demo_world
       = (Inr None, doc_close empty_doc (demo_world\<lparr>files := (files demo_world)
            (ustr ''out.txt'' \<mapsto> [])\<rparr>))"
proof -
  note inst = C8_zero_pages [OF demo_open(3) demo_open(5)]
  have "process_pdf empty_env (ustr ''a.pdf'') 300 None demo_world
       = (Inr (Some []), doc_close empty_doc demo_world)"
    using inst [of None "ustr ''a.pdf''" 300 demo_world] by simp
  moreover have "process_pdf empty_env (ustr ''a.pdf'') 300 (Some (ustr ''out.txt'')) demo_world
       = (Inr None, doc_close empty_doc (demo_world\<lparr>files := (files demo_world)
            (ustr ''out.txt'' \<mapsto> [])\<rparr>))"
    using inst [of "Some (ustr ''out.txt'')" "ustr ''a.pdf''" 300 demo_world] out_txt_nonempty
    by (simp add: demo_sink)
  ultimately show ?thesis using demo_open(3,5) by (intro conjI)
qed

text \<open>
  C10. The mode switch tests truthiness: with the empty string as output path
  \<^verbatim>\<open>process_pdf\<close> behaves exactly as with no output path; it never returns \<^verbatim>\<open>None\<close>
  and writes no file.
\<close>

theorem C10_empty_path_as_no_path:
  "process_pdf env pdf_path dpi (Some []) w = process_pdf env pdf_path dpi None w
   \<and> fst (process_pdf env pdf_path dpi (Some []) w) \<noteq> Inr None
   \<and> files (snd (process_pdf env pdf_path dpi (Some []) w)) = files w"
proof (cases "fitz_open env pdf_path")
  case (Inl e)
  then show ?thesis by (simp add: process_pdf_def)
next
  case (Inr doc)
  then show ?thesis
    by (simp add: process_pdf_open [OF Inr] process_body_falsy split: sum.splits)
qed

theorem C10_empty_path_as_no_path_witness:
  "process_pdf demo_env (ustr ''a.pdf'') 300 (Some []) demo_world
     = (Inr (Some [ustr ''Hello'', ustr ''World'']), doc_close demo_doc demo_world)
   \<and> files (snd (process_pdf demo_env (ustr ''a.pdf'') 300 (Some []) demo_world)) = Map.empty"
proof -
  note inst = C10_empty_path_as_no_path [of demo_env "ustr ''a.pdf''" 300 demo_world]
  from inst have eq: "process_pdf demo_env (ustr ''a.pdf'') 300 (Some []) demo_world
      = process_pdf demo_env (ustr ''a.pdf'') 300 None demo_world"
    by (rule conjunct1)
  from inst have fl: "files (snd (process_pdf demo_env (ustr ''a.pdf'') 300 (Some []) demo_world))
      = files demo_world"
    by blast
  from eq demo_run_memory have "process_pdf demo_env (ustr ''a.pdf'') 300 (Some []) demo_world
     = (Inr (Some [ustr ''Hello'', ustr ''World'']), doc_close demo_doc demo_world)"
    by (rule trans)
  moreover from fl have
    "files (snd (process_pdf demo_env (ustr ''a.pdf'') 300 (Some []) demo_world)) = Map.empty"
    by (simp only: demo_world_simps)
  ultimately show ?thesis by (rule conjI)
qed

end
